theory Spec2Isabelle
  imports Main
begin

section \<open>JavaScript values\<close>

text \<open>
  The store is written in JavaScript: option values, session payloads and callback
  arguments are arbitrary values, and the code branches on their truthiness. Numbers are
  integers here, with \<open>JNaN\<close> kept apart because it is falsy; a \<open>Date\<close> is the time it
  denotes; a function is known by a name only; an object is its list of properties.
\<close>

datatype jsval =
    JUndefined
  | JNull
  | JBool bool
  | JNum int
  | JNaN
  | JStr string
  | JDate int
  | JFun string
  | JObj "(string \<times> jsval) list"

text \<open>What \<^verbatim>\<open>if (v)\<close>, \<^verbatim>\<open>!v\<close> and \<^verbatim>\<open>a || b\<close> test.\<close>

fun truthy :: "jsval \<Rightarrow> bool" where
  "truthy JUndefined = False"
| "truthy JNull = False"
| "truthy (JBool b) = b"
| "truthy (JNum n) = (n \<noteq> 0)"
| "truthy JNaN = False"
| "truthy (JStr s) = (s \<noteq> [])"
| "truthy (JDate t) = True"
| "truthy (JFun f) = True"
| "truthy (JObj ps) = True"

text \<open>\<^verbatim>\<open>a || b\<close>\<close>

definition js_or :: "jsval \<Rightarrow> jsval \<Rightarrow> jsval" where
  "js_or a b = (if truthy a then a else b)"

text \<open>\<^verbatim>\<open>typeof v === 'function'\<close>\<close>

fun is_function :: "jsval \<Rightarrow> bool" where
  "is_function (JFun f) = True"
| "is_function v = False"

text \<open>
  An options object: the value of each property, \<open>JUndefined\<close> for a property the
  object does not have.
\<close>

type_synonym options = "string \<Rightarrow> jsval"

definition no_options :: options where
  "no_options = (\<lambda>p. JUndefined)"

section \<open>The Loki collection\<close>

text \<open>
  A session document as \<^verbatim>\<open>set\<close> inserts it: \<^verbatim>\<open>{ _id, session, updatedAt: new Date() }\<close>.
  \<open>doc_id\<close> is the property \<^verbatim>\<open>_id\<close>; \<open>updatedAt\<close> is the time of the \<open>Date\<close>, which as a
  value is \<open>JDate\<close> of that time.
\<close>

record doc =
  doc_id :: string
  session :: jsval
  updatedAt :: int

text \<open>
  The collection the store keeps in \<^verbatim>\<open>this.collection\<close>: its documents in storage
  order (a new document goes to the end), and the options it was created with.
  \<open>ttl_age\<close> is the option \<^verbatim>\<open>ttl\<close> of \<^verbatim>\<open>addCollection\<close>, the age in milliseconds from which
  a document expires, and \<open>None\<close> when the option is not given; \<open>ttlInterval\<close> is the
  option of that name.
\<close>

record lcollection =
  data :: "doc list"
  indices :: "string list"
  ttl_age :: "int option"
  ttlInterval :: jsval

text \<open>
  The collection operations the store calls. They belong to the lokijs library; they are
  written here as the library behaves. \<^verbatim>\<open>find({ _id })\<close> returns the documents whose
  \<^verbatim>\<open>_id\<close> is the given one, read from the index on \<^verbatim>\<open>_id\<close>: the index puts a document that
  is inserted before the documents of the same \<^verbatim>\<open>_id\<close> it already holds, so the newest
  comes first and \<^verbatim>\<open>s[0]\<close> is the document of that \<^verbatim>\<open>_id\<close> inserted last. \<^verbatim>\<open>find\<close> returns
  the stored objects themselves, so that an assignment to \<^verbatim>\<open>s[0].session\<close> writes the stored
  document: a result is therefore the position of the document in \<open>data\<close>, and
  \<open>doc_assign\<close> is the write through it.
\<close>

definition coll_find :: "lcollection \<Rightarrow> string \<Rightarrow> nat list" where
  "coll_find c sid = rev (filter (\<lambda>i. doc_id (data c ! i) = sid) [0..<length (data c)])"

definition doc_assign :: "lcollection \<Rightarrow> nat \<Rightarrow> (doc \<Rightarrow> doc) \<Rightarrow> lcollection" where
  "doc_assign c i f = c\<lparr>data := (data c)[i := f (data c ! i)]\<rparr>"

text \<open>
  \<^verbatim>\<open>update(doc)\<close> re-indexes a stored document that was changed through its reference;
  the properties the store reads are already written. The store calls it on \<^verbatim>\<open>s[0]\<close> only,
  which is first among the documents of its \<^verbatim>\<open>_id\<close> and stays first.
\<close>

definition coll_update :: "lcollection \<Rightarrow> nat \<Rightarrow> lcollection" where
  "coll_update c i = c"

definition coll_insert :: "lcollection \<Rightarrow> doc \<Rightarrow> lcollection" where
  "coll_insert c d = c\<lparr>data := data c @ [d]\<rparr>"

definition coll_findAndRemove :: "lcollection \<Rightarrow> string \<Rightarrow> lcollection" where
  "coll_findAndRemove c sid = c\<lparr>data := filter (\<lambda>d. doc_id d \<noteq> sid) (data c)\<rparr>"

definition coll_clear :: "lcollection \<Rightarrow> lcollection" where
  "coll_clear c = c\<lparr>data := []\<rparr>"

definition coll_count :: "lcollection \<Rightarrow> nat" where
  "coll_count c = length (data c)"

text \<open>
  \<^verbatim>\<open>addCollection(name, { indices, ttl, ttlInterval })\<close>: a new, empty collection.
\<close>

definition addCollection :: "string list \<Rightarrow> int option \<Rightarrow> jsval \<Rightarrow> lcollection" where
  "addCollection idx age interval =
    \<lparr>data = [], indices = idx, ttl_age = age, ttlInterval = interval\<rparr>"

text \<open>
  The expiry of documents is the collection's own. When it is created, the collection
  calls \<^verbatim>\<open>setTTL(options.ttl || -1, options.ttlInterval)\<close>, which starts the expiry timer
  only for an age that is not negative: with no \<^verbatim>\<open>ttl\<close> option, or with 0, no timer is
  started, whatever \<^verbatim>\<open>ttlInterval\<close> is. \<open>ttl_daemon\<close> is the age the timer works with, and
  \<open>None\<close> when there is no timer.
\<close>

definition ttl_daemon :: "lcollection \<Rightarrow> int option" where
  "ttl_daemon c =
    (case ttl_age c of
       None \<Rightarrow> None
     | Some age \<Rightarrow> if age \<le> 0 then None else Some age)"

text \<open>
  One run of the timer, at the time \<open>now\<close>: it removes the documents whose last insert or
  update is more than the age ago. The collection reads its own time stamp of that
  insert or update; the store writes \<open>updatedAt\<close> at the same calls, and the model reads
  \<open>updatedAt\<close>.
\<close>

definition ttl_daemon_run :: "int \<Rightarrow> lcollection \<Rightarrow> lcollection" where
  "ttl_daemon_run now c =
    (case ttl_daemon c of
       None \<Rightarrow> c
     | Some age \<Rightarrow> c\<lparr>data := filter (\<lambda>d. \<not> age < now - updatedAt d) (data c)\<rparr>)"

section \<open>The store\<close>

text \<open>
  The fields the constructor sets on \<^verbatim>\<open>this\<close>. \<open>collection\<close> is \<open>None\<close> while
  \<^verbatim>\<open>this.collection\<close> is undefined, that is until the callback of \<^verbatim>\<open>loadDatabase\<close> has run.
\<close>

record store =
  autosave :: bool
  storePath :: jsval
  ttl :: jsval
  collectionName :: jsval
  logger :: jsval
  collection :: "lcollection option"

text \<open>The two functions the logger can be when the caller gives none.\<close>

definition noop :: jsval where
  "noop = JFun ''noop''"

definition defaultLogErrors :: jsval where
  "defaultLogErrors = JFun ''logErrors''"

text \<open>
  \<^verbatim>\<open>function LokiStore (options)\<close>, called with \<^verbatim>\<open>new\<close>. The argument is \<open>None\<close> when the
  caller passes no object (\<^verbatim>\<open>options = options || {}\<close> then makes a fresh one). The result
  is the new store and the caller's object as the constructor leaves it. The base
  constructor \<^verbatim>\<open>Store.call(this, options)\<close> is the caller's \<^verbatim>\<open>session.Store\<close>; it is taken
  to leave the object alone.
\<close>

definition LokiStore :: "options option \<Rightarrow> store \<times> options option" where
  "LokiStore arg =
    (let options = (case arg of None \<Rightarrow> no_options | Some os \<Rightarrow> os);
         ttl0 = js_or (options ''ttl'') (JNum 1209600);
         ttl1 = (if ttl0 = JNum 0 then JNull else ttl0);
         options' =
           (if truthy (options ''logErrors'')
            then (if \<not> is_function (options ''logErrors'')
                  then options(''logErrors'' := defaultLogErrors)
                  else options)
            else options);
         logger1 = (if truthy (options ''logErrors'') then options' ''logErrors'' else noop)
     in (\<lparr>autosave = (options ''autosave'' \<noteq> JBool False),
          storePath = js_or (options ''path'') (JStr ''./session-store.db''),
          ttl = ttl1,
          collectionName = js_or (options ''collection'') (JStr ''Sessions''),
          logger = logger1,
          collection = None\<rparr>,
         map_option (\<lambda>os. options') arg))"

text \<open>
  The callback of \<^verbatim>\<open>loadDatabase\<close>. \<open>loaded\<close> is what \<^verbatim>\<open>getCollection(collectionName)\<close>
  returns once the database is read: \<open>None\<close> for \<^verbatim>\<open>null\<close>, in which case the collection is
  created with \<^verbatim>\<open>indices: ['_id']\<close> and \<^verbatim>\<open>ttlInterval: self.ttl\<close>, and with no \<^verbatim>\<open>ttl\<close>. The
  error listener and the \<^verbatim>\<open>connect\<close> event are left out.
\<close>

definition loadDatabase_done :: "lcollection option \<Rightarrow> store \<Rightarrow> store" where
  "loadDatabase_done loaded st =
    st\<lparr>collection :=
      Some (case loaded of
              None \<Rightarrow> addCollection [''_id''] None (ttl st)
            | Some c \<Rightarrow> c)\<rparr>"

section \<open>The session operations\<close>

text \<open>
  Every operation ends by calling \<^verbatim>\<open>fn\<close>; the model returns the arguments of that call
  (\<open>[JNull]\<close> for \<^verbatim>\<open>fn(null)\<close>, \<open>[]\<close> for \<^verbatim>\<open>fn()\<close>). Reading a property of
  \<^verbatim>\<open>this.collection\<close> while it is undefined throws a \<open>TypeError\<close>. The time is what
  \<^verbatim>\<open>new Date()\<close> gives at the call.
\<close>

datatype error = TypeError

text \<open>\<^verbatim>\<open>LokiStore.prototype.get\<close>: it neither throws nor writes.\<close>

definition get :: "store \<Rightarrow> string \<Rightarrow> jsval list" where
  "get st sid =
    (case collection st of
       None \<Rightarrow> [JNull]
     | Some c \<Rightarrow>
        (case coll_find c sid of
           [] \<Rightarrow> [JNull]
         | i # rest \<Rightarrow>
            if truthy (session (data c ! i))
            then [JNull, session (data c ! i)]
            else [JNull]))"

text \<open>\<^verbatim>\<open>LokiStore.prototype.set\<close>\<close>

definition set_op :: "int \<Rightarrow> string \<Rightarrow> jsval \<Rightarrow> store \<Rightarrow> error + store \<times> jsval list" where
  "set_op now sid sess st =
    (case collection st of
       None \<Rightarrow> Inl TypeError
     | Some c \<Rightarrow>
        (let new_doc = \<lparr>doc_id = sid, session = sess, updatedAt = now\<rparr>;
             c' = (case coll_find c sid of
                     [] \<Rightarrow> coll_insert c new_doc
                   | i # rest \<Rightarrow>
                      if truthy (session (data c ! i))
                      then coll_update
                             (doc_assign c i (\<lambda>d. d\<lparr>session := sess, updatedAt := now\<rparr>)) i
                      else coll_insert c new_doc)
         in Inr (st\<lparr>collection := Some c'\<rparr>, [JNull])))"

text \<open>\<^verbatim>\<open>LokiStore.prototype.destroy\<close>\<close>

definition destroy :: "string \<Rightarrow> store \<Rightarrow> error + store \<times> jsval list" where
  "destroy sid st =
    (case collection st of
       None \<Rightarrow> Inl TypeError
     | Some c \<Rightarrow> Inr (st\<lparr>collection := Some (coll_findAndRemove c sid)\<rparr>, [JNull]))"

text \<open>\<^verbatim>\<open>LokiStore.prototype.clear\<close>\<close>

definition clear :: "store \<Rightarrow> error + store \<times> jsval list" where
  "clear st =
    (case collection st of
       None \<Rightarrow> Inl TypeError
     | Some c \<Rightarrow> Inr (st\<lparr>collection := Some (coll_clear c)\<rparr>, [JNull]))"

text \<open>\<^verbatim>\<open>LokiStore.prototype.length\<close>\<close>

definition length_op :: "store \<Rightarrow> error + store \<times> jsval list" where
  "length_op st =
    (case collection st of
       None \<Rightarrow> Inl TypeError
     | Some c \<Rightarrow> Inr (st, [JNull, JNum (int (coll_count c))]))"

text \<open>\<^verbatim>\<open>LokiStore.prototype.touch\<close>: the session it is given is never read.\<close>

definition touch :: "int \<Rightarrow> string \<Rightarrow> jsval \<Rightarrow> store \<Rightarrow> error + store \<times> jsval list" where
  "touch now sid sess st =
    (case collection st of
       None \<Rightarrow> Inl TypeError
     | Some c \<Rightarrow>
        (let c' = (case coll_find c sid of
                     [] \<Rightarrow> c
                   | i # rest \<Rightarrow>
                      if truthy (JDate (updatedAt (data c ! i)))
                      then coll_update (doc_assign c i (\<lambda>d. d\<lparr>updatedAt := now\<rparr>)) i
                      else c)
         in Inr (st\<lparr>collection := Some c'\<rparr>, [])))"

section \<open>Expiry\<close>

text \<open>
  The store has no code that removes an old record: it leaves expiry to the timer of its
  collection. \<open>sweep now\<close> is what a run of that timer at the time \<open>now\<close> does to the
  store; nothing, while the collection is not loaded.
\<close>

definition sweep :: "int \<Rightarrow> store \<Rightarrow> store" where
  "sweep now st =
    (case collection st of
       None \<Rightarrow> st
     | Some c \<Rightarrow> st\<lparr>collection := Some (ttl_daemon_run now c)\<rparr>)"

section \<open>The invariant of the record store\<close>

text \<open>
  No two documents of the collection have the same id. \<open>keeps_unique_ids\<close> says so of
  the store an operation returns.
\<close>

definition unique_ids :: "store \<Rightarrow> bool" where
  "unique_ids st =
    (case collection st of None \<Rightarrow> True | Some c \<Rightarrow> distinct (map doc_id (data c)))"

definition keeps_unique_ids :: "error + store \<times> jsval list \<Rightarrow> bool" where
  "keeps_unique_ids r = (case r of Inl e \<Rightarrow> True | Inr (st', cb) \<Rightarrow> unique_ids st')"

section \<open>Stores used in the examples\<close>

text \<open>
  A store constructed without options whose database held no collection, before and
  after the callback of \<^verbatim>\<open>loadDatabase\<close> has run.
\<close>

definition loading_store :: store where
  "loading_store = fst (LokiStore None)"

definition ready_store :: store where
  "ready_store = loadDatabase_done None loading_store"


lemma loading_store_eq:
  "loading_store = \<lparr>autosave = True, storePath = JStr ''./session-store.db'',
     ttl = JNum 1209600, collectionName = JStr ''Sessions'', logger = noop,
     collection = None\<rparr>"
  by (simp add: loading_store_def LokiStore_def no_options_def js_or_def)

lemma ready_store_eq:
  "ready_store = \<lparr>autosave = True, storePath = JStr ''./session-store.db'',
     ttl = JNum 1209600, collectionName = JStr ''Sessions'', logger = noop,
     collection = Some \<lparr>data = [], indices = [''_id''], ttl_age = None,
       ttlInterval = JNum 1209600\<rparr>\<rparr>"
  by (simp add: ready_store_def loading_store_eq loadDatabase_done_def addCollection_def)

section \<open>What \<open>find\<close> returns\<close>

lemma coll_find_Nil_iff:
  "coll_find c sid = [] \<longleftrightarrow> (\<forall>d \<in> set (data c). doc_id d \<noteq> sid)"
proof -
  have "coll_find c sid = [] \<longleftrightarrow> (\<forall>i < length (data c). doc_id (data c ! i) \<noteq> sid)"
    by (auto simp: coll_find_def filter_empty_conv)
  then show ?thesis
    by (simp add: all_set_conv_all_nth)
qed

lemma coll_find_Cons:
  assumes "coll_find c sid = i # rest"
  shows "i < length (data c) \<and> doc_id (data c ! i) = sid"
proof -
  have "i \<in> set (coll_find c sid)" using assms by simp
  then show ?thesis by (simp add: coll_find_def)
qed

text \<open>The result depends on the ids of the documents only.\<close>

lemma coll_find_ids:
  assumes "map doc_id (data c') = map doc_id (data c)"
  shows "coll_find c' sid = coll_find c sid"
proof -
  have len: "length (data c') = length (data c)"
    using assms by (rule map_eq_imp_length_eq)
  have "\<And>i. i < length (data c) \<Longrightarrow> doc_id (data c' ! i) = doc_id (data c ! i)"
    using assms len by (metis nth_map)
  then have "filter (\<lambda>i. doc_id (data c' ! i) = sid) [0..<length (data c)] =
      filter (\<lambda>i. doc_id (data c ! i) = sid) [0..<length (data c)]"
    by (intro filter_cong) auto
  then show ?thesis
    by (simp add: coll_find_def len)
qed

text \<open>A document that is inserted is found first among the documents of its id.\<close>

lemma coll_find_insert:
  "coll_find (coll_insert c d) sid =
     (if doc_id d = sid then [length (data c)] else []) @ coll_find c sid"
proof -
  have "filter (\<lambda>i. doc_id ((data c @ [d]) ! i) = sid) [0..<length (data c)] =
        filter (\<lambda>i. doc_id (data c ! i) = sid) [0..<length (data c)]"
    by (intro filter_cong) (auto simp: nth_append)
  then show ?thesis
    by (simp add: coll_find_def coll_insert_def)
qed

lemma coll_find_findAndRemove:
  "coll_find (coll_findAndRemove c sid) sid = []"
  by (simp add: coll_find_Nil_iff coll_findAndRemove_def)

section \<open>Writing through a reference\<close>

lemma map_doc_id_assign:
  assumes "\<And>d. doc_id (f d) = doc_id d"
  shows "map doc_id (data (doc_assign c i f)) = map doc_id (data c)"
proof -
  have "(map doc_id (data c))[i := doc_id (data c ! i)] = map doc_id (data c)"
    by (cases "i < length (data c)") (simp_all add: list_update_same_conv list_update_beyond)
  then show ?thesis
    by (simp add: doc_assign_def map_update assms)
qed

lemma map_session_assign:
  assumes "\<And>d. session (f d) = session d"
  shows "map session (data (doc_assign c i f)) = map session (data c)"
proof -
  have "(map session (data c))[i := session (data c ! i)] = map session (data c)"
    by (cases "i < length (data c)") (simp_all add: list_update_same_conv list_update_beyond)
  then show ?thesis
    by (simp add: doc_assign_def map_update assms)
qed

text \<open>\<open>get\<close> reads the ids and the sessions only.\<close>

lemma get_cong:
  assumes ids: "map doc_id (data c') = map doc_id (data c)"
    and ss: "map session (data c') = map session (data c)"
  shows "get (st\<lparr>collection := Some c'\<rparr>) sid = get (st\<lparr>collection := Some c\<rparr>) sid"
proof (cases "coll_find c sid")
  case Nil
  then show ?thesis by (simp add: get_def coll_find_ids [OF ids])
next
  case (Cons i rest)
  then have "i < length (data c)" by (simp add: coll_find_Cons)
  then have "session (data c' ! i) = session (data c ! i)"
    using ss by (metis map_eq_imp_length_eq nth_map)
  then show ?thesis by (simp add: get_def coll_find_ids [OF ids] Cons)
qed

lemma get_first:
  assumes "coll_find c sid = i # rest"
  shows "get (st\<lparr>collection := Some c\<rparr>) sid =
    (if truthy (session (data c ! i)) then [JNull, session (data c ! i)] else [JNull])"
  using assms by (simp add: get_def)

lemma store_collection_same:
  "collection st = Some c \<Longrightarrow> st\<lparr>collection := Some c\<rparr> = st"
  by simp

lemma length_op_loaded:
  "length_op (st\<lparr>collection := Some c\<rparr>) =
    Inr (st\<lparr>collection := Some c\<rparr>, [JNull, JNum (int (length (data c)))])"
  by (simp add: length_op_def coll_count_def)

section \<open>touch\<close>

text \<open>
  On a store whose collection is loaded, \<open>touch\<close> writes no session and no id: the
  sessions and ids of all documents are as before, so \<open>get\<close> answers as before for every
  id, whatever session \<open>touch\<close> was given. When no document has the id, the collection is
  unchanged and no document is created. When one has, the document \<open>find\<close> returns first
  gets the current time as \<open>updatedAt\<close> and every other document is left as it was.
\<close>

lemma touch_loaded:
  assumes "collection st = Some c"
  shows "\<exists>c'. touch now sid sess st = Inr (st\<lparr>collection := Some c'\<rparr>, [])
      \<and> map doc_id (data c') = map doc_id (data c)
      \<and> map session (data c') = map session (data c)
      \<and> get (st\<lparr>collection := Some c'\<rparr>) sid' = get st sid'
      \<and> (coll_find c sid = [] \<longrightarrow> c' = c)
      \<and> (\<forall>i rest. coll_find c sid = i # rest \<longrightarrow>
            updatedAt (data c' ! i) = now \<and> (\<forall>j. j \<noteq> i \<longrightarrow> data c' ! j = data c ! j))"
proof (cases "coll_find c sid")
  case Nil
  have "touch now sid sess st = Inr (st\<lparr>collection := Some c\<rparr>, [])"
    using assms Nil by (simp add: touch_def)
  moreover have "get (st\<lparr>collection := Some c\<rparr>) sid' = get st sid'"
    by (simp add: store_collection_same [OF assms])
  ultimately show ?thesis using Nil by auto
next
  case (Cons i rest)
  define c' where "c' = doc_assign c i (\<lambda>d. d\<lparr>updatedAt := now\<rparr>)"
  have run: "touch now sid sess st = Inr (st\<lparr>collection := Some c'\<rparr>, [])"
    using assms Cons by (simp add: touch_def coll_update_def c'_def)
  have ids: "map doc_id (data c') = map doc_id (data c)"
    unfolding c'_def by (rule map_doc_id_assign) simp
  have ss: "map session (data c') = map session (data c)"
    unfolding c'_def by (rule map_session_assign) simp
  have "get (st\<lparr>collection := Some c'\<rparr>) sid' = get (st\<lparr>collection := Some c\<rparr>) sid'"
    using ids ss by (rule get_cong)
  then have same: "get (st\<lparr>collection := Some c'\<rparr>) sid' = get st sid'"
    by (simp add: store_collection_same [OF assms])
  have "i < length (data c)" using Cons by (simp add: coll_find_Cons)
  then have upd: "updatedAt (data c' ! i) = now"
    by (simp add: c'_def doc_assign_def)
  have rest: "\<forall>j. j \<noteq> i \<longrightarrow> data c' ! j = data c ! j"
    by (simp add: c'_def doc_assign_def)
  show ?thesis
    using run ids ss same upd rest Cons by auto
qed

text \<open>
  Claim C1. The claim does not hold of the store as the constructor returns it. Until the
  callback of \<^verbatim>\<open>loadDatabase\<close> has set \<^verbatim>\<open>this.collection\<close>, no id has a record (\<open>get\<close>
  answers "not found"), and \<open>touch\<close> of such an id is not a silent no-op: it throws a
  \<open>TypeError\<close> and never calls back.
\<close>

theorem touch_before_ready_throws:
  "get (fst (LokiStore None)) ''a'' = [JNull]
   \<and> touch 5 ''a'' (JStr ''new'') (fst (LokiStore None)) = Inl TypeError"
  by (simp add: get_def touch_def LokiStore_def Let_def)

section \<open>get\<close>

text \<open>
  Claim C6. \<open>get\<close> answers "not found" (it calls back with \<open>null\<close> and no session) for
  every id on a store as the constructor returns it, and on any store whose collection is
  not loaded yet; and on a loaded store for every id that no document has.
\<close>

theorem get_not_found:
  "get (fst (LokiStore arg)) sid = [JNull]
   \<and> (collection st = None \<longrightarrow> get st sid = [JNull])
   \<and> (\<forall>c. collection st = Some c \<longrightarrow> (\<forall>d \<in> set (data c). doc_id d \<noteq> sid) \<longrightarrow>
          get st sid = [JNull])"
proof -
  have "collection (fst (LokiStore arg)) = None"
    by (simp add: LokiStore_def Let_def)
  then have a: "get (fst (LokiStore arg)) sid = [JNull]"
    by (simp add: get_def)
  have b: "collection st = None \<longrightarrow> get st sid = [JNull]"
    by (simp add: get_def)
  have c: "\<forall>c. collection st = Some c \<longrightarrow> (\<forall>d \<in> set (data c). doc_id d \<noteq> sid) \<longrightarrow>
          get st sid = [JNull]"
  proof (intro allI impI)
    fix c
    assume ready: "collection st = Some c" and "\<forall>d \<in> set (data c). doc_id d \<noteq> sid"
    then have "coll_find c sid = []"
      by (simp add: coll_find_Nil_iff)
    then show "get st sid = [JNull]"
      using ready by (simp add: get_def)
  qed
  show ?thesis using a b c by blast
qed

text \<open>
  The store constructed without options answers "not found" for \<open>''a''\<close> before the
  database is loaded, and after it is loaded with no document.
\<close>

theorem get_not_found_witness:
  "collection loading_store = None \<and> get loading_store ''a'' = [JNull]
   \<and> collection ready_store = Some \<lparr>data = [], indices = [''_id''], ttl_age = None,
       ttlInterval = JNum 1209600\<rparr>
   \<and> get ready_store ''a'' = [JNull]"
  using get_not_found [of None "''a''" ready_store]
  by (simp add: ready_store_eq loading_store_eq get_def coll_find_def)

section \<open>destroy\<close>

text \<open>
  On a loaded store \<open>destroy\<close> removes every document with the id and calls back with
  \<open>null\<close>, whether or not a document had the id. When none had, the store is as before
  and so is the answer of \<open>length\<close>. A second \<open>destroy\<close> of the same id calls back with
  \<open>null\<close> again and changes nothing more.
\<close>

lemma destroy_loaded:
  assumes "collection st = Some c"
  shows "\<exists>c'. destroy sid st = Inr (st\<lparr>collection := Some c'\<rparr>, [JNull])
      \<and> data c' = filter (\<lambda>d. doc_id d \<noteq> sid) (data c)
      \<and> coll_find c' sid = []
      \<and> (coll_find c sid = [] \<longrightarrow>
            st\<lparr>collection := Some c'\<rparr> = st
            \<and> length_op (st\<lparr>collection := Some c'\<rparr>) = length_op st)
      \<and> destroy sid (st\<lparr>collection := Some c'\<rparr>) = Inr (st\<lparr>collection := Some c'\<rparr>, [JNull])"
proof -
  define c' where "c' = coll_findAndRemove c sid"
  have run: "destroy sid st = Inr (st\<lparr>collection := Some c'\<rparr>, [JNull])"
    using assms by (simp add: destroy_def c'_def)
  have dat: "data c' = filter (\<lambda>d. doc_id d \<noteq> sid) (data c)"
    by (simp add: c'_def coll_findAndRemove_def)
  have gone: "coll_find c' sid = []"
    unfolding c'_def by (rule coll_find_findAndRemove)
  have "coll_findAndRemove c' sid = c'"
    by (simp add: c'_def coll_findAndRemove_def)
  then have again: "destroy sid (st\<lparr>collection := Some c'\<rparr>) = Inr (st\<lparr>collection := Some c'\<rparr>, [JNull])"
    by (simp add: destroy_def)
  have absent: "coll_find c sid = [] \<longrightarrow>
      st\<lparr>collection := Some c'\<rparr> = st
      \<and> length_op (st\<lparr>collection := Some c'\<rparr>) = length_op st"
  proof
    assume "coll_find c sid = []"
    then have "filter (\<lambda>d. doc_id d \<noteq> sid) (data c) = data c"
      by (simp add: coll_find_Nil_iff filter_id_conv)
    then have "c' = c"
      by (simp add: c'_def coll_findAndRemove_def)
    then have "st\<lparr>collection := Some c'\<rparr> = st"
      using assms by simp
    then show "st\<lparr>collection := Some c'\<rparr> = st
      \<and> length_op (st\<lparr>collection := Some c'\<rparr>) = length_op st"
      by simp
  qed
  show ?thesis using run dat gone again absent by blast
qed

text \<open>
  Claim C8. The claim does not hold of the store as the constructor returns it. Until the
  callback of \<^verbatim>\<open>loadDatabase\<close> has set \<^verbatim>\<open>this.collection\<close>, \<open>destroy\<close> of an id that does not
  exist does not succeed: it throws a \<open>TypeError\<close> and never calls back, and so does
  \<open>length\<close>.
\<close>

theorem destroy_before_ready_throws:
  "get (fst (LokiStore None)) ''a'' = [JNull]
   \<and> destroy ''a'' (fst (LokiStore None)) = Inl TypeError
   \<and> length_op (fst (LokiStore None)) = Inl TypeError"
  by (simp add: get_def destroy_def length_op_def LokiStore_def Let_def)

section \<open>set\<close>

text \<open>The three ways through \<open>set\<close> on a loaded store.\<close>

lemma set_op_absent:
  assumes "collection st = Some c" and "coll_find c sid = []"
  shows "set_op now sid sess st =
    Inr (st\<lparr>collection := Some (coll_insert c \<lparr>doc_id = sid, session = sess, updatedAt = now\<rparr>)\<rparr>, [JNull])"
  using assms by (simp add: set_op_def)

lemma set_op_falsy:
  assumes "collection st = Some c" and "coll_find c sid = i # rest"
    and "\<not> truthy (session (data c ! i))"
  shows "set_op now sid sess st =
    Inr (st\<lparr>collection := Some (coll_insert c \<lparr>doc_id = sid, session = sess, updatedAt = now\<rparr>)\<rparr>, [JNull])"
  using assms by (simp add: set_op_def)

lemma set_op_present:
  assumes "collection st = Some c" and "coll_find c sid = i # rest"
    and "truthy (session (data c ! i))"
  shows "set_op now sid sess st =
    Inr (st\<lparr>collection := Some (doc_assign c i (\<lambda>d. d\<lparr>session := sess, updatedAt := now\<rparr>))\<rparr>, [JNull])"
  using assms by (simp add: set_op_def coll_update_def)

lemma coll_find_assign:
  "coll_find (doc_assign c i (\<lambda>d. d\<lparr>session := sess, updatedAt := now\<rparr>)) sid = coll_find c sid"
  by (rule coll_find_ids, rule map_doc_id_assign) simp

lemma assigned_doc:
  assumes "coll_find c sid = i # rest"
  shows "data (doc_assign c i (\<lambda>d. d\<lparr>session := sess, updatedAt := now\<rparr>)) ! i =
    \<lparr>doc_id = sid, session = sess, updatedAt = now\<rparr>"
  using coll_find_Cons [OF assms] by (simp add: doc_assign_def)

text \<open>
  Where \<open>set\<close> finds a document with a truthy session it writes that document and adds
  none.
\<close>

lemma set_op_replaces:
  assumes ready: "collection st = Some c"
    and found: "coll_find c sid = i # rest"
    and truthy: "truthy (session (data c ! i))"
  shows "\<exists>c'. set_op now sid sess st = Inr (st\<lparr>collection := Some c'\<rparr>, [JNull])
      \<and> map doc_id (data c') = map doc_id (data c)
      \<and> coll_find c' sid = i # rest
      \<and> data c' ! i = \<lparr>doc_id = sid, session = sess, updatedAt = now\<rparr>"
proof -
  define c' where "c' = doc_assign c i (\<lambda>d. d\<lparr>session := sess, updatedAt := now\<rparr>)"
  have "set_op now sid sess st = Inr (st\<lparr>collection := Some c'\<rparr>, [JNull])"
    unfolding c'_def using assms by (rule set_op_present)
  moreover have "map doc_id (data c') = map doc_id (data c)"
    unfolding c'_def by (rule map_doc_id_assign) simp
  moreover have "coll_find c' sid = i # rest"
    by (simp add: c'_def coll_find_assign found)
  moreover have "data c' ! i = \<lparr>doc_id = sid, session = sess, updatedAt = now\<rparr>"
    unfolding c'_def using found by (rule assigned_doc)
  ultimately show ?thesis by blast
qed

text \<open>
  After \<open>set\<close> on a loaded store, \<open>find\<close> returns the document just written first,
  whatever the collection held; the age of the collection is as before.
\<close>

lemma set_op_newest:
  assumes ready: "collection st = Some c"
  shows "\<exists>c' j rest'. set_op now sid sess st = Inr (st\<lparr>collection := Some c'\<rparr>, [JNull])
      \<and> coll_find c' sid = j # rest'
      \<and> data c' ! j = \<lparr>doc_id = sid, session = sess, updatedAt = now\<rparr>
      \<and> j < length (data c')
      \<and> ttl_age c' = ttl_age c"
proof -
  define d where "d = \<lparr>doc_id = sid, session = sess, updatedAt = now\<rparr>"
  have "coll_find (coll_insert c d) sid = length (data c) # coll_find c sid"
    by (simp add: coll_find_insert d_def)
  moreover have "data (coll_insert c d) ! length (data c) = d
      \<and> length (data c) < length (data (coll_insert c d))
      \<and> ttl_age (coll_insert c d) = ttl_age c"
    by (simp add: coll_insert_def)
  ultimately have ins: "coll_find (coll_insert c d) sid = length (data c) # coll_find c sid
      \<and> data (coll_insert c d) ! length (data c) = d
      \<and> length (data c) < length (data (coll_insert c d))
      \<and> ttl_age (coll_insert c d) = ttl_age c"
    by simp
  show ?thesis
  proof (cases "coll_find c sid")
    case Nil
    show ?thesis
      using set_op_absent [OF ready Nil, of now sess] ins unfolding d_def by blast
  next
    case (Cons i rest)
    show ?thesis
    proof (cases "truthy (session (data c ! i))")
      case True
      define c' where "c' = doc_assign c i (\<lambda>d. d\<lparr>session := sess, updatedAt := now\<rparr>)"
      have "set_op now sid sess st = Inr (st\<lparr>collection := Some c'\<rparr>, [JNull])"
        unfolding c'_def using ready Cons True by (rule set_op_present)
      moreover have "coll_find c' sid = i # rest"
        by (simp add: c'_def coll_find_assign Cons)
      moreover have "data c' ! i = d"
        unfolding c'_def d_def using Cons by (rule assigned_doc)
      moreover have "i < length (data c')"
        using coll_find_Cons [OF Cons] by (simp add: c'_def doc_assign_def)
      moreover have "ttl_age c' = ttl_age c"
        by (simp add: c'_def doc_assign_def)
      ultimately show ?thesis unfolding d_def by blast
    next
      case False
      show ?thesis
        using set_op_falsy [OF ready Cons False, of now sess] ins unfolding d_def by blast
    qed
  qed
qed

text \<open>
  Claim C4, as amended. On a loaded store, for every id and every truthy session, \<open>set\<close>
  followed by \<open>get\<close> calls back with exactly the session that was set, whatever the
  collection held before.
\<close>

theorem set_then_get_truthy:
  assumes "collection st = Some c"
    and "truthy sess"
  shows "\<exists>st'. set_op now sid sess st = Inr (st', [JNull]) \<and> get st' sid = [JNull, sess]"
proof -
  obtain c' j rest' where run: "set_op now sid sess st = Inr (st\<lparr>collection := Some c'\<rparr>, [JNull])"
    and found: "coll_find c' sid = j # rest'"
    and at: "data c' ! j = \<lparr>doc_id = sid, session = sess, updatedAt = now\<rparr>"
    using set_op_newest [OF assms(1)] by blast
  have "get (st\<lparr>collection := Some c'\<rparr>) sid = [JNull, sess]"
    using assms(2) at by (simp add: get_first [OF found])
  then show ?thesis using run by blast
qed

text \<open>
  An object set under \<open>''a''\<close> is what \<open>get\<close> gives back, on the empty store and on a
  store that holds \<open>null\<close> under \<open>''a''\<close>.
\<close>

theorem set_then_get_truthy_witness:
  "truthy (JObj [(''user'', JStr ''u'')])
   \<and> set_op 3 ''a'' (JObj [(''user'', JStr ''u'')]) ready_store
     = Inr (ready_store\<lparr>collection := Some \<lparr>data =
          [\<lparr>doc_id = ''a'', session = JObj [(''user'', JStr ''u'')], updatedAt = 3\<rparr>],
          indices = [''_id''], ttl_age = None, ttlInterval = JNum 1209600\<rparr>\<rparr>, [JNull])
   \<and> get (ready_store\<lparr>collection := Some \<lparr>data =
          [\<lparr>doc_id = ''a'', session = JObj [(''user'', JStr ''u'')], updatedAt = 3\<rparr>],
          indices = [''_id''], ttl_age = None, ttlInterval = JNum 1209600\<rparr>\<rparr>) ''a''
     = [JNull, JObj [(''user'', JStr ''u'')]]
   \<and> set_op 3 ''a'' (JObj [(''user'', JStr ''u'')])
        (ready_store\<lparr>collection := Some \<lparr>data =
          [\<lparr>doc_id = ''a'', session = JNull, updatedAt = 1\<rparr>],
          indices = [''_id''], ttl_age = None, ttlInterval = JNum 1209600\<rparr>\<rparr>)
     = Inr (ready_store\<lparr>collection := Some \<lparr>data =
          [\<lparr>doc_id = ''a'', session = JNull, updatedAt = 1\<rparr>,
           \<lparr>doc_id = ''a'', session = JObj [(''user'', JStr ''u'')], updatedAt = 3\<rparr>],
          indices = [''_id''], ttl_age = None, ttlInterval = JNum 1209600\<rparr>\<rparr>, [JNull])
   \<and> get (ready_store\<lparr>collection := Some \<lparr>data =
          [\<lparr>doc_id = ''a'', session = JNull, updatedAt = 1\<rparr>,
           \<lparr>doc_id = ''a'', session = JObj [(''user'', JStr ''u'')], updatedAt = 3\<rparr>],
          indices = [''_id''], ttl_age = None, ttlInterval = JNum 1209600\<rparr>\<rparr>) ''a''
     = [JNull, JObj [(''user'', JStr ''u'')]]"
  using set_then_get_truthy
    [of ready_store "\<lparr>data = [], indices = [''_id''], ttl_age = None, ttlInterval = JNum 1209600\<rparr>"
        "JObj [(''user'', JStr ''u'')]" 3 "''a''"]
  by (simp add: ready_store_eq set_op_def get_def coll_find_def coll_insert_def)

text \<open>
  The claim as stated, for every session and every store, fails for the empty string:
  \<open>set\<close> stores it and \<open>get\<close> then calls back with \<open>null\<close> alone, as for an id that was
  never set. It also fails before the collection is loaded, where \<open>set\<close> throws.
\<close>

theorem set_then_get_counterexample:
  "set_op 0 ''a'' (JStr '''') ready_store
     = Inr (ready_store\<lparr>collection := Some \<lparr>data =
          [\<lparr>doc_id = ''a'', session = JStr '''', updatedAt = 0\<rparr>],
          indices = [''_id''], ttl_age = None, ttlInterval = JNum 1209600\<rparr>\<rparr>, [JNull])
   \<and> get (ready_store\<lparr>collection := Some \<lparr>data =
          [\<lparr>doc_id = ''a'', session = JStr '''', updatedAt = 0\<rparr>],
          indices = [''_id''], ttl_age = None, ttlInterval = JNum 1209600\<rparr>\<rparr>) ''a''
     = [JNull]
   \<and> [JNull] \<noteq> [JNull, JStr '''']
   \<and> set_op 0 ''a'' (JStr ''p'') (fst (LokiStore None)) = Inl TypeError"
  by (simp add: ready_store_eq set_op_def get_def coll_find_def coll_insert_def
      LokiStore_def Let_def)

text \<open>
  Claim C10. On a loaded store, when the document \<open>find\<close> returns first for an id has a
  falsy session, \<open>get\<close> answers "not found", although that document is in the collection
  and \<open>length\<close> counts every document. In particular a \<open>set\<close> with a falsy session always
  leaves such a document behind: it is stored, it is counted, and \<open>get\<close> does not find
  it.
\<close>

theorem falsy_session_not_found_but_counted:
  assumes ready: "collection st = Some c"
  shows "(\<forall>i rest. coll_find c sid = i # rest \<longrightarrow> \<not> truthy (session (data c ! i)) \<longrightarrow>
            get st sid = [JNull]
            \<and> data c ! i \<in> set (data c) \<and> doc_id (data c ! i) = sid
            \<and> length_op st = Inr (st, [JNull, JNum (int (length (data c)))]))
      \<and> (\<not> truthy sess \<longrightarrow>
           (\<exists>c'. set_op now sid sess st = Inr (st\<lparr>collection := Some c'\<rparr>, [JNull])
              \<and> get (st\<lparr>collection := Some c'\<rparr>) sid = [JNull]
              \<and> \<lparr>doc_id = sid, session = sess, updatedAt = now\<rparr> \<in> set (data c')
              \<and> length_op (st\<lparr>collection := Some c'\<rparr>) =
                  Inr (st\<lparr>collection := Some c'\<rparr>, [JNull, JNum (int (length (data c')))])))"
proof (intro conjI allI impI)
  fix i rest
  assume found: "coll_find c sid = i # rest" and falsy: "\<not> truthy (session (data c ! i))"
  show "get st sid = [JNull]"
    using ready found falsy by (simp add: get_def)
  show "data c ! i \<in> set (data c)"
    using coll_find_Cons [OF found] by simp
  show "doc_id (data c ! i) = sid"
    using coll_find_Cons [OF found] by simp
  show "length_op st = Inr (st, [JNull, JNum (int (length (data c)))])"
    using ready by (simp add: length_op_def coll_count_def)
next
  assume falsy: "\<not> truthy sess"
  obtain c' j rest' where run: "set_op now sid sess st = Inr (st\<lparr>collection := Some c'\<rparr>, [JNull])"
    and found: "coll_find c' sid = j # rest'"
    and at: "data c' ! j = \<lparr>doc_id = sid, session = sess, updatedAt = now\<rparr>"
    and j: "j < length (data c')"
    using set_op_newest [OF ready] by blast
  have got: "get (st\<lparr>collection := Some c'\<rparr>) sid = [JNull]"
    using falsy at by (simp add: get_first [OF found])
  have stored: "\<lparr>doc_id = sid, session = sess, updatedAt = now\<rparr> \<in> set (data c')"
    using at j by (metis nth_mem)
  show "\<exists>c'. set_op now sid sess st = Inr (st\<lparr>collection := Some c'\<rparr>, [JNull])
      \<and> get (st\<lparr>collection := Some c'\<rparr>) sid = [JNull]
      \<and> \<lparr>doc_id = sid, session = sess, updatedAt = now\<rparr> \<in> set (data c')
      \<and> length_op (st\<lparr>collection := Some c'\<rparr>) =
          Inr (st\<lparr>collection := Some c'\<rparr>, [JNull, JNum (int (length (data c')))])"
    using run got stored length_op_loaded by blast
qed

text \<open>
  After \<open>set\<close> of \<open>null\<close> under \<open>''a''\<close> on the empty store: one document, \<open>length\<close>
  is 1, and \<open>get\<close> answers "not found".
\<close>

theorem falsy_session_not_found_but_counted_witness:
  "\<not> truthy JNull
   \<and> set_op 0 ''a'' JNull ready_store
     = Inr (ready_store\<lparr>collection := Some \<lparr>data =
          [\<lparr>doc_id = ''a'', session = JNull, updatedAt = 0\<rparr>],
          indices = [''_id''], ttl_age = None, ttlInterval = JNum 1209600\<rparr>\<rparr>, [JNull])
   \<and> coll_find \<lparr>data = [\<lparr>doc_id = ''a'', session = JNull, updatedAt = 0\<rparr>],
          indices = [''_id''], ttl_age = None, ttlInterval = JNum 1209600\<rparr> ''a'' = [0]
   \<and> get (ready_store\<lparr>collection := Some \<lparr>data =
          [\<lparr>doc_id = ''a'', session = JNull, updatedAt = 0\<rparr>],
          indices = [''_id''], ttl_age = None, ttlInterval = JNum 1209600\<rparr>\<rparr>) ''a'' = [JNull]
   \<and> length_op (ready_store\<lparr>collection := Some \<lparr>data =
          [\<lparr>doc_id = ''a'', session = JNull, updatedAt = 0\<rparr>],
          indices = [''_id''], ttl_age = None, ttlInterval = JNum 1209600\<rparr>\<rparr>)
     = Inr (ready_store\<lparr>collection := Some \<lparr>data =
          [\<lparr>doc_id = ''a'', session = JNull, updatedAt = 0\<rparr>],
          indices = [''_id''], ttl_age = None, ttlInterval = JNum 1209600\<rparr>\<rparr>, [JNull, JNum 1])"
  using falsy_session_not_found_but_counted
    [of "ready_store\<lparr>collection := Some \<lparr>data =
          [\<lparr>doc_id = ''a'', session = JNull, updatedAt = 0\<rparr>],
          indices = [''_id''], ttl_age = None, ttlInterval = JNum 1209600\<rparr>\<rparr>"
        "\<lparr>data = [\<lparr>doc_id = ''a'', session = JNull, updatedAt = 0\<rparr>],
          indices = [''_id''], ttl_age = None, ttlInterval = JNum 1209600\<rparr>" "''a''" JNull 0]
  by (simp add: ready_store_eq set_op_def get_def coll_find_def coll_insert_def
      length_op_def coll_count_def)

section \<open>Unique ids\<close>

lemma touch_result:
  assumes "collection st = Some c"
  shows "\<exists>c'. touch now sid sess st = Inr (st\<lparr>collection := Some c'\<rparr>, [])
      \<and> map doc_id (data c') = map doc_id (data c)"
proof (cases "coll_find c sid")
  case Nil
  then have "touch now sid sess st = Inr (st\<lparr>collection := Some c\<rparr>, [])"
    using assms by (simp add: touch_def)
  then show ?thesis by blast
next
  case (Cons i rest)
  define c' where "c' = doc_assign c i (\<lambda>d. d\<lparr>updatedAt := now\<rparr>)"
  have "map doc_id (data c') = map doc_id (data c)"
    unfolding c'_def by (rule map_doc_id_assign) simp
  moreover have "touch now sid sess st = Inr (st\<lparr>collection := Some c'\<rparr>, [])"
    using assms Cons by (simp add: touch_def coll_update_def c'_def)
  ultimately show ?thesis by blast
qed

lemma unique_ids_kept:
  assumes "unique_ids st"
  shows "keeps_unique_ids (destroy sid st) \<and> keeps_unique_ids (clear st)
      \<and> keeps_unique_ids (touch now sid sess st) \<and> keeps_unique_ids (length_op st)"
proof (cases "collection st")
  case None
  then show ?thesis
    by (simp add: keeps_unique_ids_def destroy_def clear_def touch_def length_op_def)
next
  case (Some c)
  have uniq: "distinct (map doc_id (data c))"
    using assms Some by (simp add: unique_ids_def)
  have "keeps_unique_ids (destroy sid st)"
    using uniq Some
    by (simp add: keeps_unique_ids_def destroy_def unique_ids_def coll_findAndRemove_def
        distinct_map_filter)
  moreover have "keeps_unique_ids (clear st)"
    using Some by (simp add: keeps_unique_ids_def clear_def unique_ids_def coll_clear_def)
  moreover have "keeps_unique_ids (touch now sid sess st)"
  proof -
    obtain c' where "touch now sid sess st = Inr (st\<lparr>collection := Some c'\<rparr>, [])"
      and "map doc_id (data c') = map doc_id (data c)"
      using touch_result [OF Some] by blast
    then show ?thesis
      using uniq by (simp add: keeps_unique_ids_def unique_ids_def)
  qed
  moreover have "keeps_unique_ids (length_op st)"
    using assms Some by (simp add: keeps_unique_ids_def length_op_def)
  ultimately show ?thesis by simp
qed

text \<open>
  \<open>set\<close> keeps the ids unique when no document of the id has a falsy session: it then
  writes the one document of the id, or adds the first.
\<close>

lemma collection_update_inj:
  assumes "st\<lparr>collection := a\<rparr> = st\<lparr>collection := b\<rparr>"
  shows "a = b"
proof -
  have "collection (st\<lparr>collection := a\<rparr>) = collection (st\<lparr>collection := b\<rparr>)"
    using assms by simp
  then show ?thesis by simp
qed

lemma set_op_unique:
  assumes ready: "collection st = Some c"
    and uniq: "distinct (map doc_id (data c))"
    and stored: "\<forall>d \<in> set (data c). doc_id d = sid \<longrightarrow> truthy (session d)"
    and run: "set_op now sid sess st = Inr (st\<lparr>collection := Some c'\<rparr>, cb)"
  shows "distinct (map doc_id (data c'))"
proof (cases "coll_find c sid")
  case Nil
  have "sid \<notin> set (map doc_id (data c))"
    using Nil by (auto simp: coll_find_Nil_iff)
  moreover have "st\<lparr>collection := Some c'\<rparr> =
      st\<lparr>collection := Some (coll_insert c \<lparr>doc_id = sid, session = sess, updatedAt = now\<rparr>)\<rparr>"
    using run set_op_absent [OF ready Nil, of now sess] by simp
  then have "c' = coll_insert c \<lparr>doc_id = sid, session = sess, updatedAt = now\<rparr>"
    using collection_update_inj by blast
  ultimately show ?thesis
    using uniq by (simp add: coll_insert_def)
next
  case (Cons i rest)
  have "data c ! i \<in> set (data c)" and "doc_id (data c ! i) = sid"
    using coll_find_Cons [OF Cons] by simp_all
  then have "truthy (session (data c ! i))"
    using stored by blast
  then obtain c'' where run': "set_op now sid sess st = Inr (st\<lparr>collection := Some c''\<rparr>, [JNull])"
    and ids: "map doc_id (data c'') = map doc_id (data c)"
    using set_op_replaces [OF ready Cons] by blast
  have "st\<lparr>collection := Some c'\<rparr> = st\<lparr>collection := Some c''\<rparr>"
    using run run' by simp
  then have "c' = c''"
    using collection_update_inj by blast
  then show ?thesis
    using uniq ids by simp
qed

text \<open>
  Claim C5, as amended. On a loaded store, for every id and every truthy session \<open>p1\<close>:
  a second \<open>set\<close> replaces what the first one wrote, so \<open>length\<close> answers the same after
  the second \<open>set\<close> as after the first, and \<open>get\<close> gives \<open>p2\<close> when \<open>p2\<close> is truthy and
  "not found" when it is not. If no two documents had the same id before, and no document
  of the id had a falsy session, none have the same id after either \<open>set\<close>; and unique
  ids stay unique after a \<open>destroy\<close>, a \<open>clear\<close>, a \<open>touch\<close> or a \<open>length\<close>.
\<close>

theorem set_twice_replaces:
  assumes ready: "collection st = Some c"
    and p1: "truthy p1"
  shows "\<exists>c1 c2 n.
        set_op t1 sid p1 st = Inr (st\<lparr>collection := Some c1\<rparr>, [JNull])
      \<and> set_op t2 sid p2 (st\<lparr>collection := Some c1\<rparr>) = Inr (st\<lparr>collection := Some c2\<rparr>, [JNull])
      \<and> get (st\<lparr>collection := Some c2\<rparr>) sid = (if truthy p2 then [JNull, p2] else [JNull])
      \<and> length_op (st\<lparr>collection := Some c1\<rparr>) = Inr (st\<lparr>collection := Some c1\<rparr>, [JNull, JNum n])
      \<and> length_op (st\<lparr>collection := Some c2\<rparr>) = Inr (st\<lparr>collection := Some c2\<rparr>, [JNull, JNum n])
      \<and> (unique_ids st \<and> (\<forall>d \<in> set (data c). doc_id d = sid \<longrightarrow> truthy (session d)) \<longrightarrow>
            unique_ids (st\<lparr>collection := Some c1\<rparr>) \<and> unique_ids (st\<lparr>collection := Some c2\<rparr>))
      \<and> (unique_ids st \<longrightarrow>
            keeps_unique_ids (destroy sid' st) \<and> keeps_unique_ids (clear st)
            \<and> keeps_unique_ids (touch t3 sid' sess st) \<and> keeps_unique_ids (length_op st))"
proof -
  obtain c1 j rest1 where run1: "set_op t1 sid p1 st = Inr (st\<lparr>collection := Some c1\<rparr>, [JNull])"
    and found1: "coll_find c1 sid = j # rest1"
    and at1: "data c1 ! j = \<lparr>doc_id = sid, session = p1, updatedAt = t1\<rparr>"
    using set_op_newest [OF ready] by blast
  define st1 where "st1 = st\<lparr>collection := Some c1\<rparr>"
  have ready1: "collection st1 = Some c1"
    by (simp add: st1_def)
  have "truthy (session (data c1 ! j))"
    using at1 p1 by simp
  then obtain c2 where run2: "set_op t2 sid p2 st1 = Inr (st1\<lparr>collection := Some c2\<rparr>, [JNull])"
    and ids: "map doc_id (data c2) = map doc_id (data c1)"
    and found2: "coll_find c2 sid = j # rest1"
    and at2: "data c2 ! j = \<lparr>doc_id = sid, session = p2, updatedAt = t2\<rparr>"
    using set_op_replaces [OF ready1 found1] by blast
  have st2: "st1\<lparr>collection := Some c2\<rparr> = st\<lparr>collection := Some c2\<rparr>"
    by (simp add: st1_def)
  have got: "get (st\<lparr>collection := Some c2\<rparr>) sid = (if truthy p2 then [JNull, p2] else [JNull])"
    using at2 by (simp add: get_first [OF found2])
  have same: "length (data c2) = length (data c1)"
    using ids by (rule map_eq_imp_length_eq)
  have count1: "length_op (st\<lparr>collection := Some c1\<rparr>) =
      Inr (st\<lparr>collection := Some c1\<rparr>, [JNull, JNum (int (length (data c1)))])"
    by (rule length_op_loaded)
  have count2: "length_op (st\<lparr>collection := Some c2\<rparr>) =
      Inr (st\<lparr>collection := Some c2\<rparr>, [JNull, JNum (int (length (data c1)))])"
    using length_op_loaded [where st = st and c = c2] by (simp add: same)
  have inv: "unique_ids st \<and> (\<forall>d \<in> set (data c). doc_id d = sid \<longrightarrow> truthy (session d)) \<longrightarrow>
      unique_ids (st\<lparr>collection := Some c1\<rparr>) \<and> unique_ids (st\<lparr>collection := Some c2\<rparr>)"
  proof
    assume u: "unique_ids st \<and> (\<forall>d \<in> set (data c). doc_id d = sid \<longrightarrow> truthy (session d))"
    then have "distinct (map doc_id (data c))"
      using ready by (simp add: unique_ids_def)
    then have "distinct (map doc_id (data c1))"
      using u run1 by (intro set_op_unique [OF ready, where c' = c1]) simp_all
    then show "unique_ids (st\<lparr>collection := Some c1\<rparr>) \<and> unique_ids (st\<lparr>collection := Some c2\<rparr>)"
      using ids by (simp add: unique_ids_def)
  qed
  have others: "unique_ids st \<longrightarrow>
      keeps_unique_ids (destroy sid' st) \<and> keeps_unique_ids (clear st)
      \<and> keeps_unique_ids (touch t3 sid' sess st) \<and> keeps_unique_ids (length_op st)"
    using unique_ids_kept by blast
  have run2': "set_op t2 sid p2 (st\<lparr>collection := Some c1\<rparr>) = Inr (st\<lparr>collection := Some c2\<rparr>, [JNull])"
    using run2 by (simp add: st1_def)
  show ?thesis
  proof (intro exI conjI)
    show "set_op t1 sid p1 st = Inr (st\<lparr>collection := Some c1\<rparr>, [JNull])"
      by (rule run1)
    show "set_op t2 sid p2 (st\<lparr>collection := Some c1\<rparr>) = Inr (st\<lparr>collection := Some c2\<rparr>, [JNull])"
      by (rule run2')
    show "get (st\<lparr>collection := Some c2\<rparr>) sid = (if truthy p2 then [JNull, p2] else [JNull])"
      by (rule got)
    show "length_op (st\<lparr>collection := Some c1\<rparr>) =
        Inr (st\<lparr>collection := Some c1\<rparr>, [JNull, JNum (int (length (data c1)))])"
      by (rule count1)
    show "length_op (st\<lparr>collection := Some c2\<rparr>) =
        Inr (st\<lparr>collection := Some c2\<rparr>, [JNull, JNum (int (length (data c1)))])"
      by (rule count2)
    show "unique_ids st \<and> (\<forall>d \<in> set (data c). doc_id d = sid \<longrightarrow> truthy (session d)) \<longrightarrow>
        unique_ids (st\<lparr>collection := Some c1\<rparr>) \<and> unique_ids (st\<lparr>collection := Some c2\<rparr>)"
      by (rule inv)
    show "unique_ids st \<longrightarrow>
        keeps_unique_ids (destroy sid' st) \<and> keeps_unique_ids (clear st)
        \<and> keeps_unique_ids (touch t3 sid' sess st) \<and> keeps_unique_ids (length_op st)"
      by (rule others)
  qed
qed

text \<open>
  Two sets under \<open>''a''\<close> on the empty store leave one document, holding the second
  session.
\<close>

theorem set_twice_replaces_witness:
  "truthy (JStr ''p1'') \<and> unique_ids ready_store
   \<and> set_op 1 ''a'' (JStr ''p1'') ready_store
     = Inr (ready_store\<lparr>collection := Some \<lparr>data =
          [\<lparr>doc_id = ''a'', session = JStr ''p1'', updatedAt = 1\<rparr>],
          indices = [''_id''], ttl_age = None, ttlInterval = JNum 1209600\<rparr>\<rparr>, [JNull])
   \<and> set_op 2 ''a'' (JStr ''p2'')
       (ready_store\<lparr>collection := Some \<lparr>data =
          [\<lparr>doc_id = ''a'', session = JStr ''p1'', updatedAt = 1\<rparr>],
          indices = [''_id''], ttl_age = None, ttlInterval = JNum 1209600\<rparr>\<rparr>)
     = Inr (ready_store\<lparr>collection := Some \<lparr>data =
          [\<lparr>doc_id = ''a'', session = JStr ''p2'', updatedAt = 2\<rparr>],
          indices = [''_id''], ttl_age = None, ttlInterval = JNum 1209600\<rparr>\<rparr>, [JNull])
   \<and> get (ready_store\<lparr>collection := Some \<lparr>data =
          [\<lparr>doc_id = ''a'', session = JStr ''p2'', updatedAt = 2\<rparr>],
          indices = [''_id''], ttl_age = None, ttlInterval = JNum 1209600\<rparr>\<rparr>) ''a'' = [JNull, JStr ''p2'']
   \<and> length_op (ready_store\<lparr>collection := Some \<lparr>data =
          [\<lparr>doc_id = ''a'', session = JStr ''p2'', updatedAt = 2\<rparr>],
          indices = [''_id''], ttl_age = None, ttlInterval = JNum 1209600\<rparr>\<rparr>)
     = Inr (ready_store\<lparr>collection := Some \<lparr>data =
          [\<lparr>doc_id = ''a'', session = JStr ''p2'', updatedAt = 2\<rparr>],
          indices = [''_id''], ttl_age = None, ttlInterval = JNum 1209600\<rparr>\<rparr>, [JNull, JNum 1])
   \<and> unique_ids (ready_store\<lparr>collection := Some \<lparr>data =
          [\<lparr>doc_id = ''a'', session = JStr ''p2'', updatedAt = 2\<rparr>],
          indices = [''_id''], ttl_age = None, ttlInterval = JNum 1209600\<rparr>\<rparr>)"
  using set_twice_replaces
    [of ready_store "\<lparr>data = [], indices = [''_id''], ttl_age = None, ttlInterval = JNum 1209600\<rparr>"
        "JStr ''p1''" 1 "''a''" 2 "JStr ''p2''" "''a''" 3 JNull]
  by (simp add: ready_store_eq set_op_def get_def coll_find_def coll_insert_def
      doc_assign_def coll_update_def length_op_def coll_count_def unique_ids_def)

text \<open>
  The claim as stated, for all sessions and every store, fails when the first session is
  \<open>null\<close>: the second \<open>set\<close> inserts a second document with the same id, \<open>length\<close> goes
  from 1 to 2 and the ids are no longer unique. It fails when the second session is
  \<open>null\<close>: \<open>get\<close> then answers "not found". And it fails before the collection is loaded,
  where \<open>set\<close> throws.
\<close>

theorem set_twice_counterexample:
  "set_op 1 ''a'' JNull ready_store
     = Inr (ready_store\<lparr>collection := Some \<lparr>data =
          [\<lparr>doc_id = ''a'', session = JNull, updatedAt = 1\<rparr>],
          indices = [''_id''], ttl_age = None, ttlInterval = JNum 1209600\<rparr>\<rparr>, [JNull])
   \<and> length_op (ready_store\<lparr>collection := Some \<lparr>data =
          [\<lparr>doc_id = ''a'', session = JNull, updatedAt = 1\<rparr>],
          indices = [''_id''], ttl_age = None, ttlInterval = JNum 1209600\<rparr>\<rparr>)
     = Inr (ready_store\<lparr>collection := Some \<lparr>data =
          [\<lparr>doc_id = ''a'', session = JNull, updatedAt = 1\<rparr>],
          indices = [''_id''], ttl_age = None, ttlInterval = JNum 1209600\<rparr>\<rparr>, [JNull, JNum 1])
   \<and> set_op 2 ''a'' (JStr ''p2'')
       (ready_store\<lparr>collection := Some \<lparr>data =
          [\<lparr>doc_id = ''a'', session = JNull, updatedAt = 1\<rparr>],
          indices = [''_id''], ttl_age = None, ttlInterval = JNum 1209600\<rparr>\<rparr>)
     = Inr (ready_store\<lparr>collection := Some \<lparr>data =
          [\<lparr>doc_id = ''a'', session = JNull, updatedAt = 1\<rparr>,
           \<lparr>doc_id = ''a'', session = JStr ''p2'', updatedAt = 2\<rparr>],
          indices = [''_id''], ttl_age = None, ttlInterval = JNum 1209600\<rparr>\<rparr>, [JNull])
   \<and> length_op (ready_store\<lparr>collection := Some \<lparr>data =
          [\<lparr>doc_id = ''a'', session = JNull, updatedAt = 1\<rparr>,
           \<lparr>doc_id = ''a'', session = JStr ''p2'', updatedAt = 2\<rparr>],
          indices = [''_id''], ttl_age = None, ttlInterval = JNum 1209600\<rparr>\<rparr>)
     = Inr (ready_store\<lparr>collection := Some \<lparr>data =
          [\<lparr>doc_id = ''a'', session = JNull, updatedAt = 1\<rparr>,
           \<lparr>doc_id = ''a'', session = JStr ''p2'', updatedAt = 2\<rparr>],
          indices = [''_id''], ttl_age = None, ttlInterval = JNum 1209600\<rparr>\<rparr>, [JNull, JNum 2])
   \<and> \<not> unique_ids (ready_store\<lparr>collection := Some \<lparr>data =
          [\<lparr>doc_id = ''a'', session = JNull, updatedAt = 1\<rparr>,
           \<lparr>doc_id = ''a'', session = JStr ''p2'', updatedAt = 2\<rparr>],
          indices = [''_id''], ttl_age = None, ttlInterval = JNum 1209600\<rparr>\<rparr>)
   \<and> set_op 2 ''a'' JNull
       (ready_store\<lparr>collection := Some \<lparr>data =
          [\<lparr>doc_id = ''a'', session = JStr ''p1'', updatedAt = 1\<rparr>],
          indices = [''_id''], ttl_age = None, ttlInterval = JNum 1209600\<rparr>\<rparr>)
     = Inr (ready_store\<lparr>collection := Some \<lparr>data =
          [\<lparr>doc_id = ''a'', session = JNull, updatedAt = 2\<rparr>],
          indices = [''_id''], ttl_age = None, ttlInterval = JNum 1209600\<rparr>\<rparr>, [JNull])
   \<and> get (ready_store\<lparr>collection := Some \<lparr>data =
          [\<lparr>doc_id = ''a'', session = JNull, updatedAt = 2\<rparr>],
          indices = [''_id''], ttl_age = None, ttlInterval = JNum 1209600\<rparr>\<rparr>) ''a'' = [JNull]
   \<and> set_op 1 ''a'' (JStr ''p1'') (fst (LokiStore None)) = Inl TypeError"
  by (simp add: ready_store_eq set_op_def get_def coll_find_def coll_insert_def
      doc_assign_def coll_update_def length_op_def coll_count_def unique_ids_def
      LokiStore_def Let_def)

section \<open>The constructor\<close>

lemma LokiStore_collection: "collection (fst (LokiStore arg)) = None"
  by (simp add: LokiStore_def Let_def)

text \<open>
  Claim C3. The claim that no operation ever raises does not hold of the store as the
  constructor returns it: until the callback of \<^verbatim>\<open>loadDatabase\<close> has set
  \<^verbatim>\<open>this.collection\<close>, each of \<open>set\<close>, \<open>destroy\<close>, \<open>clear\<close>, \<open>length\<close> and \<open>touch\<close> throws a
  \<open>TypeError\<close> and never calls back. Only \<open>get\<close> tests \<^verbatim>\<open>this.collection\<close> first.
\<close>

theorem operations_before_ready_throw:
  "set_op now sid sess (fst (LokiStore arg)) = Inl TypeError
   \<and> destroy sid (fst (LokiStore arg)) = Inl TypeError
   \<and> clear (fst (LokiStore arg)) = Inl TypeError
   \<and> length_op (fst (LokiStore arg)) = Inl TypeError
   \<and> touch now sid sess (fst (LokiStore arg)) = Inl TypeError"
  by (simp add: set_op_def destroy_def clear_def length_op_def touch_def LokiStore_collection)

text \<open>
  Claim C9, as amended. The constructor leaves every property of the caller's options
  object as it was, except \<^verbatim>\<open>logErrors\<close>: when that is truthy and not a function, it is
  overwritten with the default logging function. When \<^verbatim>\<open>logErrors\<close> is falsy or a
  function, the whole object is unchanged.
\<close>

theorem LokiStore_leaves_options_but_logErrors:
  "snd (LokiStore None) = None
   \<and> (\<exists>os'. snd (LokiStore (Some os)) = Some os'
        \<and> (\<forall>p. p \<noteq> ''logErrors'' \<longrightarrow> os' p = os p)
        \<and> (truthy (os ''logErrors'') \<and> \<not> is_function (os ''logErrors'')
              \<longrightarrow> os' ''logErrors'' = defaultLogErrors)
        \<and> (\<not> truthy (os ''logErrors'') \<or> is_function (os ''logErrors'') \<longrightarrow> os' = os))"
  by (simp add: LokiStore_def Let_def)

text \<open>
  With \<^verbatim>\<open>{ ttl: 2, logErrors: true }\<close> the property \<^verbatim>\<open>ttl\<close> is still 2 afterwards and
  \<^verbatim>\<open>logErrors\<close> is the default function; with \<^verbatim>\<open>{ ttl: 2 }\<close> the object is unchanged.
\<close>

theorem LokiStore_leaves_options_but_logErrors_witness:
  "''ttl'' \<noteq> ''logErrors''
   \<and> the (snd (LokiStore (Some (no_options(''ttl'' := JNum 2, ''logErrors'' := JBool True))))) ''ttl''
       = JNum 2
   \<and> the (snd (LokiStore (Some (no_options(''ttl'' := JNum 2, ''logErrors'' := JBool True)))))
        ''logErrors'' = defaultLogErrors
   \<and> snd (LokiStore (Some (no_options(''ttl'' := JNum 2))))
       = Some (no_options(''ttl'' := JNum 2))"
  using LokiStore_leaves_options_but_logErrors
    [of "no_options(''ttl'' := JNum 2, ''logErrors'' := JBool True)"]
    LokiStore_leaves_options_but_logErrors [of "no_options(''ttl'' := JNum 2)"]
  by (simp add: LokiStore_def Let_def no_options_def)

text \<open>
  The claim as stated, for every options object, fails for \<^verbatim>\<open>{ logErrors: true }\<close>: the
  caller's \<^verbatim>\<open>logErrors\<close> is \<open>true\<close> before the call and a function after it.
\<close>

theorem LokiStore_mutates_options_counterexample:
  "(no_options(''logErrors'' := JBool True)) ''logErrors'' = JBool True
   \<and> the (snd (LokiStore (Some (no_options(''logErrors'' := JBool True))))) ''logErrors''
       = JFun ''logErrors''"
  by (simp add: LokiStore_def Let_def no_options_def defaultLogErrors_def)

section \<open>Expiry of records\<close>


text \<open>
  A collection that was created with an age does lose its old documents: with the age 5,
  a run at time 10 removes the document written at time 0 and keeps the one written at
  time 9.
\<close>

lemma ttl_daemon_run_with_age:
  "ttl_daemon_run 10
     \<lparr>data = [\<lparr>doc_id = ''a'', session = JStr ''x'', updatedAt = 0\<rparr>,
              \<lparr>doc_id = ''b'', session = JStr ''y'', updatedAt = 9\<rparr>],
      indices = [''_id''], ttl_age = Some 5, ttlInterval = JNum 5\<rparr>
   = \<lparr>data = [\<lparr>doc_id = ''b'', session = JStr ''y'', updatedAt = 9\<rparr>],
      indices = [''_id''], ttl_age = Some 5, ttlInterval = JNum 5\<rparr>"
  by (simp add: ttl_daemon_run_def ttl_daemon_def)







text \<open>
  Claim C7. The claim does not hold of the store: with \<^verbatim>\<open>ttl: 2\<close> the store resolves its
  time-to-live to 2 and creates its collection with \<^verbatim>\<open>ttlInterval\<close> 2, but with no age, so
  the collection has no expiry timer. A record set at time 0 is still there, and \<open>get\<close>
  still answers with its session, after the runs the timer would have made at the times
  2 and 3.
\<close>

theorem record_not_expired_with_ttl:
  "loadDatabase_done None (fst (LokiStore (Some (no_options(''ttl'' := JNum 2)))))
     = ready_store\<lparr>ttl := JNum 2, collection := Some \<lparr>data = [], indices = [''_id''],
         ttl_age = None, ttlInterval = JNum 2\<rparr>\<rparr>
   \<and> ttl_daemon \<lparr>data = [], indices = [''_id''], ttl_age = None, ttlInterval = JNum 2\<rparr> = None
   \<and> set_op 0 ''A'' (JStr ''B'')
       (ready_store\<lparr>ttl := JNum 2, collection := Some \<lparr>data = [], indices = [''_id''],
          ttl_age = None, ttlInterval = JNum 2\<rparr>\<rparr>)
     = Inr (ready_store\<lparr>ttl := JNum 2, collection := Some \<lparr>data =
          [\<lparr>doc_id = ''A'', session = JStr ''B'', updatedAt = 0\<rparr>],
          indices = [''_id''], ttl_age = None, ttlInterval = JNum 2\<rparr>\<rparr>, [JNull])
   \<and> sweep 2 (ready_store\<lparr>ttl := JNum 2, collection := Some \<lparr>data =
          [\<lparr>doc_id = ''A'', session = JStr ''B'', updatedAt = 0\<rparr>],
          indices = [''_id''], ttl_age = None, ttlInterval = JNum 2\<rparr>\<rparr>)
     = ready_store\<lparr>ttl := JNum 2, collection := Some \<lparr>data =
          [\<lparr>doc_id = ''A'', session = JStr ''B'', updatedAt = 0\<rparr>],
          indices = [''_id''], ttl_age = None, ttlInterval = JNum 2\<rparr>\<rparr>
   \<and> get (sweep 3 (ready_store\<lparr>ttl := JNum 2, collection := Some \<lparr>data =
          [\<lparr>doc_id = ''A'', session = JStr ''B'', updatedAt = 0\<rparr>],
          indices = [''_id''], ttl_age = None, ttlInterval = JNum 2\<rparr>\<rparr>)) ''A''
     = [JNull, JStr ''B'']"
  by (simp add: ready_store_eq LokiStore_def Let_def no_options_def js_or_def
      loadDatabase_done_def addCollection_def noop_def
      set_op_def get_def coll_find_def coll_insert_def sweep_def ttl_daemon_run_def
      ttl_daemon_def)

end
